theory Spec2Isabelle
  imports Main
begin

section \<open>Work hours calculator: the functions of app.py\<close>

text \<open>
  The program is a single Python file. Its helper functions
  (\<open>format_timedelta\<close>, \<open>calculate_time_difference\<close>, \<open>format_time_input\<close>, the
  callbacks) and the body of its per-day loop are embedded below, each definition
  following the source line by line.

  Conventions of the embedding.
  \<^item> A Python \<open>str\<close> is a list of code points. An Isabelle \<open>char\<close> stands for
    the code point of the same number, so the strings of the model are the Python strings
    over U+0000 .. U+00FF, and \<open>length\<close> is Python's \<open>len\<close>.
  \<^item> An exception is a value \<open>Inl e\<close> of the result type \<open>error + 'a\<close>.
  \<^item> A \<open>timedelta\<close> is its number of seconds, an integer: every \<open>timedelta\<close>
    the program builds is a difference of two \<open>datetime\<close>s with second and microsecond
    zero, or a sum of such differences, so \<open>int(td.total_seconds())\<close> is that integer.
  \<^item> A \<open>datetime\<close> on or after the base date is the number of seconds since
    midnight of the base date.
\<close>

subsection \<open>Errors\<close>

datatype error = ValueError | TypeError | KeyError

text \<open>\<open>try: body except (E1, ...): handler\<close>; \<open>caught\<close> says which errors the clause names.\<close>

definition try_except :: "error + 'a \<Rightarrow> (error \<Rightarrow> bool) \<Rightarrow> error + 'a \<Rightarrow> error + 'a" where
  "try_except body caught handler =
     (case body of
        Inr v \<Rightarrow> Inr v
      | Inl e \<Rightarrow> if caught e then handler else Inl e)"

subsection \<open>Characters and the library functions on strings\<close>

definition code_point :: "char \<Rightarrow> nat" where
  "code_point c = of_char c"

text \<open>
  Unicode decimal digits (category Nd): below U+0100 these are \<open>0\<close> .. \<open>9\<close>. They are
  the characters the regular expression \<open>\d\<close> matches and the digits \<open>int()\<close> reads.
\<close>

definition isdecimal :: "char \<Rightarrow> bool" where
  "isdecimal c \<longleftrightarrow> 48 \<le> code_point c \<and> code_point c \<le> 57"

text \<open>
  \<open>str.isdigit\<close> holds of the characters with Numeric_Type Decimal or Digit: below
  U+0100 the ten decimal digits and the superscripts U+00B2, U+00B3 and U+00B9.
\<close>

definition isdigit :: "char \<Rightarrow> bool" where
  "isdigit c \<longleftrightarrow>
     isdecimal c \<or> code_point c = 178 \<or> code_point c = 179 \<or> code_point c = 185"

definition digit_value :: "char \<Rightarrow> int" where
  "digit_value c = int (code_point c) - 48"

text \<open>
  \<open>int(s)\<close> for the strings this program converts: they consist of \<open>isdigit\<close>
  characters or of characters matched by \<open>\d\<close>, so signs, blanks and underscores do not
  occur. The conversion reads decimal digits and raises \<open>ValueError\<close> on anything else.
\<close>

definition py_int :: "string \<Rightarrow> error + int" where
  "py_int s =
     (if s \<noteq> [] \<and> list_all isdecimal s
      then Inr (foldl (\<lambda>n c. 10 * n + digit_value c) 0 s)
      else Inl ValueError)"

text \<open>\<open>str(n)\<close> for an integer \<open>n\<close>, as the f-strings of the program render it.\<close>

definition digit_char :: "nat \<Rightarrow> char" where
  "digit_char d = char_of (48 + d)"

function str_nat :: "nat \<Rightarrow> string" where
  "str_nat n = (if n < 10 then [digit_char n] else str_nat (n div 10) @ [digit_char (n mod 10)])"
  by pat_completeness auto
termination
  by (relation "measure id") auto

declare str_nat.simps [simp del]

definition str_int :: "int \<Rightarrow> string" where
  "str_int i = (if i < 0 then CHR ''-'' # str_nat (nat (- i)) else str_nat (nat i))"

subsection \<open>\<open>datetime.strptime(s, "%H:%M")\<close>\<close>

text \<open>
  \<open>strptime\<close> translates the format into the regular expression
  \<^verbatim>\<open>(?P<H>2[0-3]|[0-1]\d|\d):(?P<M>[0-5]\d|\d)\<close>
  and calls \<open>match\<close> on the string (anchored at the start only). It raises
  \<open>ValueError\<close> when there is no match and when the match does not reach the end of the
  string (unconverted data remains); otherwise hour and minute are \<open>int\<close> of the two groups.

  A piece of the expression maps a string to the list of its matches, each the text matched
  and the rest of the string, in the order a backtracking matcher tries them; the match of
  the whole expression is the first entry of the combined list.
\<close>

definition in_range :: "char \<Rightarrow> char \<Rightarrow> char \<Rightarrow> bool" where
  "in_range lo hi c \<longleftrightarrow> code_point lo \<le> code_point c \<and> code_point c \<le> code_point hi"

definition group_H :: "string \<Rightarrow> (string \<times> string) list" where
  "group_H s =
     (case s of a # b # r \<Rightarrow>
        if a = CHR ''2'' \<and> in_range CHR ''0'' CHR ''3'' b then [([a, b], r)] else []
      | _ \<Rightarrow> [])
     @ (case s of a # b # r \<Rightarrow>
        if in_range CHR ''0'' CHR ''1'' a \<and> isdecimal b then [([a, b], r)] else []
      | _ \<Rightarrow> [])
     @ (case s of a # r \<Rightarrow> if isdecimal a then [([a], r)] else []
      | _ \<Rightarrow> [])"

definition colon :: "string \<Rightarrow> string list" where
  "colon s = (case s of a # r \<Rightarrow> if a = CHR '':'' then [r] else [] | _ \<Rightarrow> [])"

definition group_M :: "string \<Rightarrow> (string \<times> string) list" where
  "group_M s =
     (case s of a # b # r \<Rightarrow>
        if in_range CHR ''0'' CHR ''5'' a \<and> isdecimal b then [([a, b], r)] else []
      | _ \<Rightarrow> [])
     @ (case s of a # r \<Rightarrow> if isdecimal a then [([a], r)] else []
      | _ \<Rightarrow> [])"

definition format_regex_matches :: "string \<Rightarrow> (string \<times> string \<times> string) list" where
  "format_regex_matches s =
     concat (map (\<lambda>(h, r1).
       concat (map (\<lambda>r2.
         map (\<lambda>(m, r3). (h, m, r3)) (group_M r2)) (colon r1))) (group_H s))"

record time =
  hour :: int
  minute :: int

definition strptime :: "string \<Rightarrow> error + time" where
  "strptime data_string =
     (case format_regex_matches data_string of
        [] \<Rightarrow> Inl ValueError
      | (h, m, rest) # _ \<Rightarrow>
          if rest \<noteq> [] then Inl ValueError
          else (case py_int h of
                  Inl e \<Rightarrow> Inl e
                | Inr hh \<Rightarrow>
                    (case py_int m of
                       Inl e \<Rightarrow> Inl e
                     | Inr mm \<Rightarrow> Inr \<lparr>hour = hh, minute = mm\<rparr>)))"

subsection \<open>\<open>calculate_time_difference\<close>\<close>

type_synonym timedelta = int
type_synonym datetime = int

definition days_delta :: "int \<Rightarrow> timedelta" where
  "days_delta n = n * 86400"

definition time_min :: time where
  "time_min = \<lparr>hour = 0, minute = 0\<rparr>"

text \<open>\<open>datetime.combine(base_date, t)\<close>, in seconds since midnight of \<open>base_date\<close>.\<close>

definition combine_base_date :: "time \<Rightarrow> datetime" where
  "combine_base_date t = hour t * 3600 + minute t * 60"

text \<open>The body of the \<open>try\<close> block.\<close>

definition time_difference_body :: "string \<Rightarrow> string \<Rightarrow> error + timedelta" where
  "time_difference_body in_time_str out_time_str =
     (case strptime in_time_str of
        Inl e \<Rightarrow> Inl e
      | Inr t_in \<Rightarrow>
          (let start_datetime = combine_base_date t_in in
           case (if out_time_str = ''24:00''
                 then Inr (combine_base_date time_min + days_delta 1)
                 else (case strptime out_time_str of
                         Inl e \<Rightarrow> Inl e
                       | Inr t_out \<Rightarrow> Inr (combine_base_date t_out))) of
             Inl e \<Rightarrow> Inl e
           | Inr end_datetime \<Rightarrow>
               (let end_datetime' =
                      (if end_datetime < start_datetime
                       then end_datetime + days_delta 1 else end_datetime)
                in Inr (end_datetime' - start_datetime))))"

definition calculate_time_difference :: "string \<Rightarrow> string \<Rightarrow> error + timedelta" where
  "calculate_time_difference in_time_str out_time_str =
     try_except (time_difference_body in_time_str out_time_str)
       (\<lambda>e. e = ValueError \<or> e = TypeError)
       (Inr 0)"

subsection \<open>\<open>format_timedelta\<close>\<close>

text \<open>
  The argument may be \<open>None\<close>. Python's \<open>//\<close> and \<open>%\<close> round towards minus
  infinity, as \<open>div\<close> and \<open>mod\<close> on \<open>int\<close> do.
\<close>

definition format_timedelta :: "timedelta option \<Rightarrow> string" where
  "format_timedelta td =
     (case td of
        None \<Rightarrow> ''0h 0m''
      | Some d \<Rightarrow>
          (let total_seconds = d;
               hours = total_seconds div 3600;
               minutes = (total_seconds mod 3600) div 60
           in str_int hours @ ''h '' @ str_int minutes @ ''m''))"

subsection \<open>\<open>format_time_input\<close>\<close>

text \<open>
  The slices \<open>s[:n]\<close> and \<open>s[n:]\<close> are \<open>take n s\<close> and \<open>drop n s\<close>;
  \<open>digits[0]\<close> is read only where \<open>len(digits) == 3\<close>. The call of \<open>int\<close> is
  outside any \<open>try\<close>, so its \<open>ValueError\<close> leaves the function.
\<close>

definition format_time_input :: "string \<Rightarrow> error + string" where
  "format_time_input time_str =
     (if time_str = [] then Inr []
      else
        (let digits = take 4 (filter isdigit time_str) in
         if length digits = 3 then
           (case py_int (take 2 digits) of
              Inl e \<Rightarrow> Inl e
            | Inr n \<Rightarrow>
                if n > 23 then Inr (''0'' @ [digits ! 0] @ '':'' @ drop 1 digits)
                else Inr (take 2 digits @ '':'' @ drop 2 digits))
         else if length digits = 4 then Inr (take 2 digits @ '':'' @ drop 2 digits)
         else Inr digits))"

subsection \<open>The session state and the callbacks\<close>

type_synonym session_state = "string \<rightharpoonup> string"

definition days :: "string list" where
  "days = [''Monday'', ''Tuesday'', ''Wednesday'', ''Thursday'', ''Friday'', ''Saturday'',
           ''Sunday'']"

definition in_key :: "string \<Rightarrow> string" where
  "in_key day = ''in_'' @ day"

definition out_key :: "string \<Rightarrow> string" where
  "out_key day = ''out_'' @ day"

definition getitem :: "session_state \<Rightarrow> string \<Rightarrow> error + string" where
  "getitem st key = (case st key of None \<Rightarrow> Inl KeyError | Some v \<Rightarrow> Inr v)"

text \<open>
  The clock: \<open>datetime.now()\<close>, of which the program reads \<open>strftime("%H:%M")\<close> only,
  the hour and the minute as two digits each.
\<close>

definition two_digits :: "int \<Rightarrow> string" where
  "two_digits n = [digit_char (nat n div 10), digit_char (nat n mod 10)]"

definition strftime_HM :: "time \<Rightarrow> string" where
  "strftime_HM t = two_digits (hour t) @ '':'' @ two_digits (minute t)"

definition format_input_callback ::
  "string \<Rightarrow> string \<Rightarrow> session_state \<Rightarrow> error + session_state" where
  "format_input_callback day field st =
     (let key = field @ ''_'' @ day in
      case st key of
        None \<Rightarrow> Inr st
      | Some raw_value \<Rightarrow>
          (case format_time_input raw_value of
             Inl e \<Rightarrow> Inl e
           | Inr formatted_value \<Rightarrow> Inr (st(key \<mapsto> formatted_value))))"

definition end_now_callback :: "string \<Rightarrow> time \<Rightarrow> session_state \<Rightarrow> session_state" where
  "end_now_callback day now st = st(out_key day \<mapsto> strftime_HM now)"

definition clear_day_callback :: "string \<Rightarrow> session_state \<Rightarrow> session_state" where
  "clear_day_callback day st = (st(in_key day \<mapsto> ''''))(out_key day \<mapsto> '''')"

definition reset_all_callback :: "session_state \<Rightarrow> session_state" where
  "reset_all_callback st = fold clear_day_callback days st"

subsection \<open>The body of the per-day loop\<close>

text \<open>What column 5 of a row shows: the error box or the duration text.\<close>

datatype cell = Error_box string | Markdown string

record row =
  error_in_row :: bool
  end_now_button :: bool
  daily_duration :: timedelta
  duration_suffix :: string
  col5 :: cell

text \<open>The first validation block: the value of \<open>error_in_row\<close> after it.\<close>

definition validate_in_time :: "string \<Rightarrow> error + bool" where
  "validate_in_time in_time =
     (if in_time \<noteq> [] \<and> length in_time = 5
      then try_except
             (if in_time = ''24:00'' then Inl ValueError
              else (case strptime in_time of Inl e \<Rightarrow> Inl e | Inr _ \<Rightarrow> Inr False))
             (\<lambda>e. e = ValueError)
             (Inr True)
      else Inr False)"

text \<open>The second validation block, from the flag the first one left.\<close>

definition validate_out_time :: "string \<Rightarrow> bool \<Rightarrow> error + bool" where
  "validate_out_time out_time error_in_row0 =
     (if out_time \<noteq> [] \<and> \<not> error_in_row0 \<and> length out_time = 5
      then try_except
             (if out_time \<noteq> ''24:00''
              then (case strptime out_time of Inl e \<Rightarrow> Inl e | Inr _ \<Rightarrow> Inr error_in_row0)
              else Inr error_in_row0)
             (\<lambda>e. e = ValueError)
             (Inr True)
      else Inr error_in_row0)"

text \<open>The two cases that set \<open>daily_duration\<close> and \<open>duration_suffix\<close>.\<close>

definition duration_cases ::
  "bool \<Rightarrow> string \<Rightarrow> string \<Rightarrow> time \<Rightarrow> error + timedelta \<times> string" where
  "duration_cases err in_time out_time now =
     (if \<not> err \<and> length in_time = 5 \<and> length out_time = 5
      then (case calculate_time_difference in_time out_time of
              Inl e \<Rightarrow> Inl e
            | Inr d \<Rightarrow> Inr (d, ''''))
      else if \<not> err \<and> length in_time = 5 \<and> out_time = []
      then (let current_time_str = strftime_HM now in
            case calculate_time_difference in_time current_time_str of
              Inl e \<Rightarrow> Inl e
            | Inr d \<Rightarrow> Inr (d, '' (so far)''))
      else Inr (0, ''''))"

definition markdown_div :: "string \<Rightarrow> string" where
  "markdown_div body =
     ''<div style='' @ [CHR 0x27] @ ''text-align: center; padding-top: 8px;'' @ [CHR 0x27]
       @ ''>'' @ body @ ''</div>''"

definition day_row :: "string \<Rightarrow> string \<Rightarrow> time \<Rightarrow> error + row" where
  "day_row in_time out_time now =
     (case validate_in_time in_time of
        Inl e \<Rightarrow> Inl e
      | Inr err0 \<Rightarrow>
     (case validate_out_time out_time err0 of
        Inl e \<Rightarrow> Inl e
      | Inr err \<Rightarrow>
     (case duration_cases err in_time out_time now of
        Inl e \<Rightarrow> Inl e
      | Inr (dur, suffix) \<Rightarrow>
          Inr \<lparr>error_in_row = err,
               end_now_button = (\<not> err \<and> in_time \<noteq> [] \<and> out_time = []),
               daily_duration = dur,
               duration_suffix = suffix,
               col5 = (if err then Error_box ''Not a real time''
                       else Markdown (markdown_div (format_timedelta (Some dur) @ suffix)))\<rparr>)))"

text \<open>
  \<open>st.text_input(..., key=key)\<close>, as far as the session state goes: the widget registers
  its key, and a key the state does not hold yet gets the default value of a text input,
  the empty string. A key already held keeps its value.
\<close>

definition text_input :: "session_state \<Rightarrow> string \<Rightarrow> session_state" where
  "text_input st key = (case st key of None \<Rightarrow> st(key \<mapsto> []) | Some v \<Rightarrow> st)"

text \<open>The two widgets of a row, for the in-time and for the out-time.\<close>

definition register_day :: "session_state \<Rightarrow> string \<Rightarrow> session_state" where
  "register_day st day = text_input (text_input st (in_key day)) (out_key day)"

text \<open>
  One pass of the loop for \<open>day\<close>: after the two widgets, the two fields are read from
  the session state.
\<close>

definition day_pass :: "session_state \<Rightarrow> time \<Rightarrow> string \<Rightarrow> error + row" where
  "day_pass st now day =
     (let st' = register_day st day in
      case getitem st' (in_key day) of
        Inl e \<Rightarrow> Inl e
      | Inr in_time \<Rightarrow>
     (case getitem st' (out_key day) of
        Inl e \<Rightarrow> Inl e
      | Inr out_time \<Rightarrow> day_row in_time out_time now))"

text \<open>The loop over the days; the keys a pass registers stay in the session state.\<close>

fun week_loop :: "string list \<Rightarrow> session_state \<Rightarrow> time \<Rightarrow> timedelta \<Rightarrow> error + timedelta" where
  "week_loop [] st now running_total = Inr running_total"
| "week_loop (day # rest) st now running_total =
     (case day_pass st now day of
        Inl e \<Rightarrow> Inl e
      | Inr r \<Rightarrow>
          week_loop rest (register_day st day) now (running_total + daily_duration r))"

definition total_duration :: "session_state \<Rightarrow> time \<Rightarrow> error + timedelta" where
  "total_duration st now = week_loop days st now 0"

definition total_hours_str :: "session_state \<Rightarrow> time \<Rightarrow> error + string" where
  "total_hours_str st now =
     (case total_duration st now of
        Inl e \<Rightarrow> Inl e
      | Inr week_total \<Rightarrow> Inr (format_timedelta (Some week_total)))"

section \<open>Notions of the specification\<close>

text \<open>
  A semantically valid time text \<open>HH:MM\<close>: two decimal digits, a colon, two decimal
  digits, the hour at most 23 and the minute at most 59.
\<close>

definition valid_hhmm :: "string \<Rightarrow> bool" where
  "valid_hhmm s =
     (case s of
        [a, b, c, d, e] \<Rightarrow>
          isdecimal a \<and> isdecimal b \<and> c = CHR '':'' \<and> isdecimal d \<and> isdecimal e \<and>
          10 * digit_value a + digit_value b \<le> 23 \<and>
          10 * digit_value d + digit_value e \<le> 59
      | _ \<Rightarrow> False)"

text \<open>The time of day a text \<open>HH:MM\<close> denotes, and its offset from midnight in seconds.\<close>

fun clock_time :: "string \<Rightarrow> time" where
  "clock_time [a, b, c, d, e] =
     \<lparr>hour = 10 * digit_value a + digit_value b, minute = 10 * digit_value d + digit_value e\<rparr>"
| "clock_time _ = \<lparr>hour = 0, minute = 0\<rparr>"

definition clock_seconds :: "string \<Rightarrow> int" where
  "clock_seconds s = hour (clock_time s) * 3600 + minute (clock_time s) * 60"

text \<open>A clock reading as \<open>datetime.now()\<close> can return it.\<close>

definition valid_time :: "time \<Rightarrow> bool" where
  "valid_time t \<longleftrightarrow> 0 \<le> hour t \<and> hour t \<le> 23 \<and> 0 \<le> minute t \<and> minute t \<le> 59"

text \<open>
  The text of one field of a match of the format: one decimal digit, or two that
  read as a number up to the bound of the field.
\<close>

definition field_text :: "int \<Rightarrow> string \<Rightarrow> bool" where
  "field_text bound h =
     (case h of
        [a] \<Rightarrow> isdecimal a
      | [a, b] \<Rightarrow> isdecimal a \<and> isdecimal b \<and> 10 * digit_value a + digit_value b \<le> bound
      | _ \<Rightarrow> False)"

text \<open>
  The reference algorithm of the normalizer in the words of the specification, a digit
  being a decimal digit: strip the other characters, keep at most four digits, and lay
  them out by their number.
\<close>

definition normalize_reference :: "string \<Rightarrow> string" where
  "normalize_reference raw =
     (case take 4 (filter isdecimal raw) of
        [d0, d1, d2] \<Rightarrow>
          if 10 * digit_value d0 + digit_value d1 > 23
          then [CHR ''0'', d0, CHR '':'', d1, d2]
          else [d0, d1, CHR '':'', d2]
      | [d0, d1, d2, d3] \<Rightarrow> [d0, d1, CHR '':'', d2, d3]
      | ds \<Rightarrow> ds)"

text \<open>
  A session state that holds both fields of each of the seven days, as the initialisation
  of the program makes it and every callback leaves it.
\<close>

definition well_formed :: "session_state \<Rightarrow> bool" where
  "well_formed st \<longleftrightarrow>
     list_all (\<lambda>day. st (in_key day) \<noteq> None \<and> st (out_key day) \<noteq> None) days"

text \<open>The duration one day adds to the total: \<open>daily_duration\<close> of its pass of the loop.\<close>

definition day_duration :: "session_state \<Rightarrow> time \<Rightarrow> string \<Rightarrow> timedelta" where
  "day_duration st now day =
     (case day_pass st now day of Inl e \<Rightarrow> 0 | Inr r \<Rightarrow> daily_duration r)"

text \<open>A week with two days entered: Monday 09:00 to 17:00, Tuesday 22:00 to 06:00.\<close>

definition example_week :: session_state where
  "example_week =
     (reset_all_callback Map.empty)
       (in_key ''Monday'' \<mapsto> ''09:00'', out_key ''Monday'' \<mapsto> ''17:00'',
        in_key ''Tuesday'' \<mapsto> ''22:00'', out_key ''Tuesday'' \<mapsto> ''06:00'')"

section \<open>Facts about the library functions\<close>

lemma char_eq_code_point: "a = b \<longleftrightarrow> code_point a = code_point b"
  by (simp add: code_point_def)

lemma code_point_literals:
  "code_point CHR ''0'' = 48" "code_point CHR ''1'' = 49" "code_point CHR ''2'' = 50"
  "code_point CHR ''3'' = 51" "code_point CHR ''5'' = 53" "code_point CHR '':'' = 58"
  by (simp_all add: code_point_def)

lemma digit_value_range: "isdecimal a \<Longrightarrow> 0 \<le> digit_value a \<and> digit_value a \<le> 9"
  by (auto simp add: isdecimal_def digit_value_def)

lemma py_int_one: "isdecimal a \<Longrightarrow> py_int [a] = Inr (digit_value a)"
  by (simp add: py_int_def)

lemma py_int_two:
  "isdecimal a \<Longrightarrow> isdecimal b \<Longrightarrow> py_int [a, b] = Inr (10 * digit_value a + digit_value b)"
  by (simp add: py_int_def)

lemma valid_hhmmE:
  assumes "valid_hhmm s"
  obtains a b d e where "s = [a, b, CHR '':'', d, e]"
    "isdecimal a" "isdecimal b" "isdecimal d" "isdecimal e"
    "10 * digit_value a + digit_value b \<le> 23" "10 * digit_value d + digit_value e \<le> 59"
  using assms unfolding valid_hhmm_def
  by (auto split: list.splits)

lemma valid_hhmm_length: "valid_hhmm s \<Longrightarrow> length s = 5"
  by (auto elim: valid_hhmmE)

subsection \<open>The format accepts every valid \<open>HH:MM\<close>\<close>

lemma group_H_valid:
  assumes "isdecimal a" "isdecimal b" "10 * digit_value a + digit_value b \<le> 23"
  shows "\<exists>rest. group_H (a # b # r) = ([a, b], r) # rest"
  using assms
  by (auto simp add: group_H_def in_range_def isdecimal_def digit_value_def
      char_eq_code_point [of a] code_point_literals)

lemma group_M_valid:
  assumes "isdecimal d" "isdecimal e" "10 * digit_value d + digit_value e \<le> 59"
  shows "\<exists>rest. group_M (d # e # r) = ([d, e], r) # rest"
  using assms
  by (auto simp add: group_M_def in_range_def isdecimal_def digit_value_def code_point_literals)

lemma strptime_valid:
  assumes "valid_hhmm s"
  shows "strptime s = Inr (clock_time s)"
proof -
  from assms obtain a b d e where s: "s = [a, b, CHR '':'', d, e]"
    and dec: "isdecimal a" "isdecimal b" "isdecimal d" "isdecimal e"
    and h: "10 * digit_value a + digit_value b \<le> 23"
    and m: "10 * digit_value d + digit_value e \<le> 59"
    by (rule valid_hhmmE)
  obtain hs where H: "group_H s = ([a, b], [CHR '':'', d, e]) # hs"
    using group_H_valid [OF dec(1,2) h] s by blast
  obtain ms where M: "group_M [d, e] = ([d, e], []) # ms"
    using group_M_valid [OF dec(3,4) m] by blast
  have "\<exists>rest. format_regex_matches s = ([a, b], [d, e], []) # rest"
    by (simp add: format_regex_matches_def H M colon_def)
  then show ?thesis
    using dec by (auto simp add: strptime_def py_int_two s)
qed

subsection \<open>What the format accepts\<close>

lemma field_text_py_int:
  assumes "field_text bound h" "9 \<le> bound"
  shows "\<exists>v. py_int h = Inr v \<and> 0 \<le> v \<and> v \<le> bound"
proof -
  consider a where "h = [a]" "isdecimal a"
    | a b where "h = [a, b]" "isdecimal a" "isdecimal b"
        "10 * digit_value a + digit_value b \<le> bound"
    using assms(1) unfolding field_text_def by (auto split: list.splits)
  then show ?thesis
  proof cases
    case 1
    then show ?thesis
      using digit_value_range [of a] assms(2) by (simp add: py_int_one)
  next
    case 2
    then show ?thesis
      using digit_value_range [of a] digit_value_range [of b] by (simp add: py_int_two)
  qed
qed

lemma field_text_length: "field_text bound h \<Longrightarrow> length h = 1 \<or> length h = 2"
  unfolding field_text_def by (auto split: list.splits)

lemma field_text_two:
  "field_text bound [a, b] \<longleftrightarrow>
     isdecimal a \<and> isdecimal b \<and> 10 * digit_value a + digit_value b \<le> bound"
  by (simp add: field_text_def)

lemma group_H_sound:
  assumes "(h, r) \<in> set (group_H s)"
  shows "s = h @ r \<and> field_text 23 h"
  using assms
  by (auto simp add: group_H_def in_range_def isdecimal_def digit_value_def field_text_def
      code_point_literals split: list.splits if_splits)

lemma group_M_sound:
  assumes "(m, r) \<in> set (group_M s)"
  shows "s = m @ r \<and> field_text 59 m"
  using assms
  by (auto simp add: group_M_def in_range_def isdecimal_def digit_value_def field_text_def
      code_point_literals split: list.splits if_splits)

lemma colon_sound: "r \<in> set (colon s) \<Longrightarrow> s = CHR '':'' # r"
  by (auto simp add: colon_def split: list.splits if_splits)

lemma format_regex_matches_sound:
  assumes "(h, m, r) \<in> set (format_regex_matches s)"
  shows "s = h @ CHR '':'' # m @ r \<and> field_text 23 h \<and> field_text 59 m"
proof -
  from assms obtain r1 r2 where
    "(h, r1) \<in> set (group_H s)" "r2 \<in> set (colon r1)" "(m, r) \<in> set (group_M r2)"
    by (auto simp add: format_regex_matches_def)
  then show ?thesis
    using group_H_sound [of h r1 s] group_M_sound [of m r r2] colon_sound [of r2 r1]
    by simp
qed

lemma strptime_sound:
  assumes "strptime s = Inr t"
  shows "\<exists>h m. s = h @ CHR '':'' # m \<and> field_text 23 h \<and> field_text 59 m \<and>
           py_int h = Inr (hour t) \<and> py_int m = Inr (minute t)"
proof -
  from assms obtain h m rest where
    fm: "format_regex_matches s = (h, m, []) # rest"
    and ph: "py_int h = Inr (hour t)" and pm: "py_int m = Inr (minute t)"
    by (auto simp add: strptime_def split: list.splits if_splits sum.splits)
  then have "(h, m, []) \<in> set (format_regex_matches s)" by simp
  from format_regex_matches_sound [OF this] ph pm show ?thesis by auto
qed

lemma strptime_range:
  assumes "strptime s = Inr t"
  shows "valid_time t"
proof -
  from strptime_sound [OF assms] obtain h m where
    ph: "py_int h = Inr (hour t)" and pm: "py_int m = Inr (minute t)"
    and H: "field_text 23 h" and M: "field_text 59 m"
    by blast
  from field_text_py_int [OF H] ph have "0 \<le> hour t \<and> hour t \<le> 23" by auto
  moreover from field_text_py_int [OF M] pm have "0 \<le> minute t \<and> minute t \<le> 59" by auto
  ultimately show ?thesis by (simp add: valid_time_def)
qed

lemma strptime_five:
  assumes "strptime s = Inr t" "length s = 5"
  shows "valid_hhmm s"
proof -
  from strptime_sound [OF assms(1)] obtain h m where
    s: "s = h @ CHR '':'' # m" and H: "field_text 23 h" and M: "field_text 59 m"
    by blast
  from field_text_length [OF H] field_text_length [OF M] assms(2) s
  have "length h = 2" "length m = 2" by auto
  then obtain a b d e where hm: "h = [a, b]" "m = [d, e]"
    by (auto simp add: length_Suc_conv numeral_2_eq_2)
  with H M s show ?thesis by (simp add: valid_hhmm_def field_text_two)
qed

text \<open>The only error \<open>strptime\<close> raises is \<open>ValueError\<close>.\<close>

lemma py_int_error: "py_int s = Inl e \<Longrightarrow> e = ValueError"
  by (auto simp add: py_int_def split: if_splits)

lemma strptime_error: "strptime s = Inl e \<Longrightarrow> e = ValueError"
  by (auto simp add: strptime_def split: list.splits if_splits sum.splits dest: py_int_error)

lemma strptime_cases: "strptime s = Inl ValueError \<or> (\<exists>t. strptime s = Inr t)"
  by (cases "strptime s") (auto dest: strptime_error)

lemma strptime_five_invalid:
  assumes "length s = 5" "\<not> valid_hhmm s"
  shows "strptime s = Inl ValueError"
  using strptime_cases [of s] strptime_five [of s] assms by blast

lemma strptime_sentinel: "strptime ''24:00'' = Inl ValueError"
  by (simp add: strptime_def format_regex_matches_def group_H_def group_M_def colon_def
      in_range_def isdecimal_def code_point_def)

lemma strptime_empty: "strptime [] = Inl ValueError"
  by (simp add: strptime_def format_regex_matches_def group_H_def)

section \<open>\<open>calculate_time_difference\<close>\<close>

lemma clock_seconds_range:
  assumes "valid_hhmm s"
  shows "0 \<le> clock_seconds s \<and> clock_seconds s < 86400"
proof -
  from assms obtain a b d e where s: "s = [a, b, CHR '':'', d, e]"
    and dec: "isdecimal a" "isdecimal b" "isdecimal d" "isdecimal e"
    and h: "10 * digit_value a + digit_value b \<le> 23"
    and m: "10 * digit_value d + digit_value e \<le> 59"
    by (rule valid_hhmmE)
  from dec have "0 \<le> 10 * digit_value a + digit_value b" "0 \<le> 10 * digit_value d + digit_value e"
    using digit_value_range by fastforce+
  with h m show ?thesis
    by (simp add: clock_seconds_def s)
qed

lemma time_difference_body_valid:
  assumes "valid_hhmm i" "valid_hhmm out"
  shows "time_difference_body i out =
     Inr (if clock_seconds out < clock_seconds i
          then clock_seconds out + 86400 - clock_seconds i
          else clock_seconds out - clock_seconds i)"
proof -
  have "out \<noteq> ''24:00''"
    using assms(2) by (auto simp add: valid_hhmm_def digit_value_def code_point_def)
  then show ?thesis
    by (simp add: time_difference_body_def strptime_valid [OF assms(1)]
        strptime_valid [OF assms(2)] combine_base_date_def clock_seconds_def days_delta_def
        Let_def)
qed

lemma time_difference_body_sentinel:
  assumes "valid_hhmm i"
  shows "time_difference_body i ''24:00'' = Inr (86400 - clock_seconds i)"
  using clock_seconds_range [OF assms]
  by (simp add: time_difference_body_def strptime_valid [OF assms] combine_base_date_def
      clock_seconds_def days_delta_def time_min_def Let_def)

lemma time_difference_body_error: "time_difference_body i out = Inl e \<Longrightarrow> e = ValueError"
  by (auto simp add: time_difference_body_def Let_def split: sum.splits if_splits
      dest: strptime_error)

lemma calculate_time_difference_cases:
  "calculate_time_difference i out =
     (case time_difference_body i out of Inl e \<Rightarrow> Inr 0 | Inr d \<Rightarrow> Inr d)"
  using time_difference_body_error [of i out]
  by (auto simp add: calculate_time_difference_def try_except_def split: sum.splits)

lemma time_difference_body_nonneg:
  assumes "time_difference_body i out = Inr d"
  shows "0 \<le> d"
proof -
  from assms obtain t where t: "strptime i = Inr t"
    by (auto simp add: time_difference_body_def split: sum.splits)
  have ti: "valid_time t" using strptime_range [OF t] .
  show ?thesis
  proof (cases "out = ''24:00''")
    case True
    with assms t ti show ?thesis
      by (auto simp add: time_difference_body_def combine_base_date_def days_delta_def
          time_min_def valid_time_def Let_def split: if_splits)
  next
    case False
    with assms t obtain u where u: "strptime out = Inr u"
      by (auto simp add: time_difference_body_def Let_def split: sum.splits)
    have tu: "valid_time u" using strptime_range [OF u] .
    from assms t u False ti tu show ?thesis
      by (auto simp add: time_difference_body_def combine_base_date_def days_delta_def
          valid_time_def Let_def split: if_splits)
  qed
qed

lemma calculate_time_difference_total:
  "\<exists>d. calculate_time_difference i out = Inr d \<and> 0 \<le> d"
  using time_difference_body_nonneg [of i out]
  by (cases "time_difference_body i out") (simp_all add: calculate_time_difference_cases)

lemma calculate_in_fails:
  "strptime i = Inl ValueError \<Longrightarrow> calculate_time_difference i out = Inr 0"
  by (simp add: calculate_time_difference_cases time_difference_body_def)

lemma calculate_out_fails:
  "out \<noteq> ''24:00'' \<Longrightarrow> strptime out = Inl ValueError \<Longrightarrow>
     calculate_time_difference i out = Inr 0"
  by (simp add: calculate_time_difference_cases time_difference_body_def Let_def
      split: sum.splits)

text \<open>
  Claim C1. For valid time texts \<open>inText\<close> and \<open>outText\<close> (two digits, a colon, two
  digits, hour 0 to 23, minute 0 to 59; the text \<open>24:00\<close> is not one),
  \<open>calculate_time_difference\<close> returns the difference of the clock offsets when the
  out-time is not earlier than the in-time, and that difference plus 24 hours when it is
  earlier. Equal texts give zero, not a full day, and the result is never negative.
\<close>

theorem elapsed_valid_pair:
  assumes "valid_hhmm inText" and "valid_hhmm outText"
  shows "calculate_time_difference inText outText =
           Inr (if clock_seconds inText \<le> clock_seconds outText
                then clock_seconds outText - clock_seconds inText
                else clock_seconds outText + 24 * 3600 - clock_seconds inText)
         \<and> calculate_time_difference inText inText = Inr 0
         \<and> (\<exists>d. calculate_time_difference inText outText = Inr d \<and> 0 \<le> d)"
proof -
  have "calculate_time_difference inText outText =
           Inr (if clock_seconds inText \<le> clock_seconds outText
                then clock_seconds outText - clock_seconds inText
                else clock_seconds outText + 24 * 3600 - clock_seconds inText)"
    by (simp add: calculate_time_difference_cases time_difference_body_valid [OF assms])
  moreover have "calculate_time_difference inText inText = Inr 0"
    by (simp add: calculate_time_difference_cases
        time_difference_body_valid [OF assms(1) assms(1)])
  moreover have "\<exists>d. calculate_time_difference inText outText = Inr d \<and> 0 \<le> d"
    by (rule calculate_time_difference_total)
  ultimately show ?thesis by blast
qed

text \<open>The examples of the specification: 09:00 to 17:30, 22:00 to 06:00 overnight, equal times.\<close>

theorem elapsed_valid_pair_witness:
  "valid_hhmm ''09:00'' \<and> valid_hhmm ''17:30'' \<and> valid_hhmm ''22:00'' \<and> valid_hhmm ''06:00''
   \<and> calculate_time_difference ''09:00'' ''17:30'' = Inr (8 * 3600 + 30 * 60)
   \<and> calculate_time_difference ''22:00'' ''06:00'' = Inr (8 * 3600)
   \<and> calculate_time_difference ''09:00'' ''09:00'' = Inr 0"
proof -
  have v: "valid_hhmm ''09:00''" "valid_hhmm ''17:30''" "valid_hhmm ''22:00''"
    "valid_hhmm ''06:00''"
    by (simp_all add: valid_hhmm_def isdecimal_def digit_value_def code_point_def)
  have c: "clock_seconds ''09:00'' = 32400" "clock_seconds ''17:30'' = 63000"
    "clock_seconds ''22:00'' = 79200" "clock_seconds ''06:00'' = 21600"
    by (simp_all add: clock_seconds_def digit_value_def code_point_def)
  from elapsed_valid_pair [OF v(1) v(2)] elapsed_valid_pair [OF v(3) v(4)] v c
  show ?thesis by simp
qed

text \<open>
  Claim C2. With the out-time \<open>24:00\<close> and a valid in-time, the result is 24 hours minus
  the clock offset of the in-time: the out-time is midnight of the next day. With the
  in-time \<open>24:00\<close> the result is zero for every out-time, since \<open>strptime\<close> rejects
  that text.
\<close>

theorem elapsed_sentinel:
  assumes "valid_hhmm inText"
  shows "calculate_time_difference inText ''24:00'' = Inr (24 * 3600 - clock_seconds inText)
         \<and> calculate_time_difference ''24:00'' outText = Inr 0"
  using calculate_in_fails [OF strptime_sentinel, of outText]
  by (simp add: calculate_time_difference_cases time_difference_body_sentinel [OF assms])

text \<open>From 09:00 to 24:00 are 15 hours; from 24:00 to 09:00 the result is zero.\<close>

theorem elapsed_sentinel_witness:
  "valid_hhmm ''09:00'' \<and> calculate_time_difference ''09:00'' ''24:00'' = Inr (15 * 3600)
   \<and> calculate_time_difference ''24:00'' ''09:00'' = Inr 0"
proof -
  have v: "valid_hhmm ''09:00''"
    by (simp add: valid_hhmm_def isdecimal_def digit_value_def code_point_def)
  have c: "clock_seconds ''09:00'' = 32400"
    by (simp add: clock_seconds_def digit_value_def code_point_def)
  from elapsed_sentinel [OF v, of "''09:00''"] v c show ?thesis by simp
qed

text \<open>
  Claim C4. \<open>calculate_time_difference\<close> returns a duration for every pair of strings,
  never an error. When \<open>strptime\<close> rejects the in-time, or rejects an out-time other than
  \<open>24:00\<close>, the duration is zero; this covers the empty string, the in-time
  \<open>24:00\<close>, and every text of five characters that is not a valid \<open>HH:MM\<close>
  (malformed digits, hour above 23, minute above 59). Texts with a one-digit field, such as
  \<open>9:05\<close>, are accepted by \<open>strptime\<close> and are not among the failures.
\<close>

theorem elapsed_never_raises:
  "(\<exists>d. calculate_time_difference inTime outTime = Inr d \<and> 0 \<le> d)
   \<and> (strptime inTime = Inl ValueError \<or> (outTime \<noteq> ''24:00'' \<and> strptime outTime = Inl ValueError)
        \<longrightarrow> calculate_time_difference inTime outTime = Inr 0)
   \<and> (inTime = [] \<or> inTime = ''24:00'' \<or> (length inTime = 5 \<and> \<not> valid_hhmm inTime)
        \<or> outTime = [] \<or> (length outTime = 5 \<and> outTime \<noteq> ''24:00'' \<and> \<not> valid_hhmm outTime)
        \<longrightarrow> calculate_time_difference inTime outTime = Inr 0)"
proof -
  have a: "\<exists>d. calculate_time_difference inTime outTime = Inr d \<and> 0 \<le> d"
    by (rule calculate_time_difference_total)
  have b: "strptime inTime = Inl ValueError \<or> (outTime \<noteq> ''24:00'' \<and> strptime outTime = Inl ValueError)
        \<longrightarrow> calculate_time_difference inTime outTime = Inr 0"
    using calculate_in_fails calculate_out_fails by blast
  have c: "inTime = [] \<or> inTime = ''24:00'' \<or> (length inTime = 5 \<and> \<not> valid_hhmm inTime)
        \<or> outTime = [] \<or> (length outTime = 5 \<and> outTime \<noteq> ''24:00'' \<and> \<not> valid_hhmm outTime)
        \<longrightarrow> strptime inTime = Inl ValueError \<or> (outTime \<noteq> ''24:00'' \<and> strptime outTime = Inl ValueError)"
    using strptime_empty strptime_sentinel strptime_five_invalid by fastforce
  from a b c show ?thesis by blast
qed

text \<open>An hour of 25, a minute of 61 and an empty out-time all give zero.\<close>

theorem elapsed_never_raises_witness:
  "strptime ''25:30'' = Inl ValueError \<and> calculate_time_difference ''25:30'' ''09:00'' = Inr 0
   \<and> length ''09:61'' = 5 \<and> \<not> valid_hhmm ''09:61'' \<and> calculate_time_difference ''09:00'' ''09:61'' = Inr 0
   \<and> calculate_time_difference ''09:00'' [] = Inr 0"
proof -
  have v: "\<not> valid_hhmm ''09:61''" "\<not> valid_hhmm ''25:30''"
    by (simp_all add: valid_hhmm_def isdecimal_def digit_value_def code_point_def)
  have s: "strptime ''25:30'' = Inl ValueError"
    using strptime_five_invalid [OF _ v(2)] by simp
  from elapsed_never_raises [of "''25:30''" "''09:00''"]
    elapsed_never_raises [of "''09:00''" "''09:61''"]
    elapsed_never_raises [of "''09:00''" "[]"] v s
  show ?thesis by simp
qed

section \<open>The per-day loop\<close>

text \<open>
  A pass never fails on a missing key: it reads what the state holds for the two fields of
  the day, and the empty string for a field the state did not hold.
\<close>

lemma register_day_present:
  assumes "st (in_key day) \<noteq> None" "st (out_key day) \<noteq> None"
  shows "register_day st day = st"
  using assms by (auto simp add: register_day_def text_input_def)

lemma register_day_fields:
  "register_day st day (in_key day) = Some (case st (in_key day) of None \<Rightarrow> [] | Some v \<Rightarrow> v)"
  "register_day st day (out_key day) = Some (case st (out_key day) of None \<Rightarrow> [] | Some v \<Rightarrow> v)"
  by (auto simp add: register_day_def text_input_def in_key_def out_key_def
      split: option.splits)

lemma day_pass_fields:
  "day_pass st now day =
     day_row (case st (in_key day) of None \<Rightarrow> [] | Some v \<Rightarrow> v)
             (case st (out_key day) of None \<Rightarrow> [] | Some v \<Rightarrow> v) now"
  by (simp add: day_pass_def getitem_def register_day_fields Let_def)

lemma sentinel_not_valid: "\<not> valid_hhmm ''24:00''"
  by (simp add: valid_hhmm_def digit_value_def code_point_def)

lemma validate_in_time_eq:
  "validate_in_time in_time = Inr (length in_time = 5 \<and> \<not> valid_hhmm in_time)"
proof (cases "length in_time = 5")
  case False
  then show ?thesis by (simp add: validate_in_time_def)
next
  case len: True
  then have ne: "in_time \<noteq> []" by auto
  show ?thesis
  proof (cases "valid_hhmm in_time")
    case True
    then have "in_time \<noteq> ''24:00''" using sentinel_not_valid by auto
    with True len ne show ?thesis
      by (simp add: validate_in_time_def strptime_valid try_except_def)
  next
    case False
    with len ne show ?thesis
      by (simp add: validate_in_time_def strptime_five_invalid try_except_def)
  qed
qed

lemma validate_out_time_eq:
  "validate_out_time out_time e0 =
     Inr (e0 \<or> (length out_time = 5 \<and> out_time \<noteq> ''24:00'' \<and> \<not> valid_hhmm out_time))"
proof (cases "length out_time = 5 \<and> \<not> e0")
  case False
  then show ?thesis by (auto simp add: validate_out_time_def)
next
  case True
  then have ne: "out_time \<noteq> []" by auto
  show ?thesis
  proof (cases "valid_hhmm out_time")
    case v: True
    then have "out_time \<noteq> ''24:00''" using sentinel_not_valid by auto
    with v True ne show ?thesis
      by (simp add: validate_out_time_def strptime_valid try_except_def)
  next
    case False
    with True ne show ?thesis
      by (simp add: validate_out_time_def strptime_five_invalid try_except_def)
  qed
qed

lemma duration_cases_eq:
  "duration_cases err in_time out_time now =
     Inr (if \<not> err \<and> length in_time = 5 \<and> length out_time = 5
          then (case calculate_time_difference in_time out_time of Inr d \<Rightarrow> d | Inl e \<Rightarrow> 0, [])
          else if \<not> err \<and> length in_time = 5 \<and> out_time = []
          then (case calculate_time_difference in_time (strftime_HM now) of Inr d \<Rightarrow> d | Inl e \<Rightarrow> 0,
                '' (so far)'')
          else (0, []))"
  using calculate_time_difference_total [of in_time out_time]
    calculate_time_difference_total [of in_time "strftime_HM now"]
  by (auto simp add: duration_cases_def Let_def)

lemma day_row_eq:
  "day_row in_time out_time now =
     (let err = (length in_time = 5 \<and> \<not> valid_hhmm in_time
                  \<or> length out_time = 5 \<and> out_time \<noteq> ''24:00'' \<and> \<not> valid_hhmm out_time);
          p = (if \<not> err \<and> length in_time = 5 \<and> length out_time = 5
          then (case calculate_time_difference in_time out_time of Inr d \<Rightarrow> d | Inl e \<Rightarrow> 0, [])
          else if \<not> err \<and> length in_time = 5 \<and> out_time = []
          then (case calculate_time_difference in_time (strftime_HM now) of Inr d \<Rightarrow> d | Inl e \<Rightarrow> 0,
                '' (so far)'')
          else (0, []))
      in Inr \<lparr>error_in_row = err,
               end_now_button = (\<not> err \<and> in_time \<noteq> [] \<and> out_time = []),
               daily_duration = fst p,
               duration_suffix = snd p,
               col5 = (if err then Error_box ''Not a real time''
                       else Markdown (markdown_div (format_timedelta (Some (fst p)) @ snd p)))\<rparr>)"
  by (simp add: day_row_def validate_in_time_eq validate_out_time_eq duration_cases_eq
      Let_def split: prod.splits)


lemma digit_char_decimal:
  assumes "d < 10"
  shows "isdecimal (digit_char d) \<and> digit_value (digit_char d) = int d"
  using assms by (simp add: isdecimal_def digit_value_def digit_char_def code_point_def)

lemma two_digits_value:
  assumes "0 \<le> n" "n \<le> 99"
  shows "\<exists>a b. two_digits n = [a, b] \<and> isdecimal a \<and> isdecimal b \<and>
           10 * digit_value a + digit_value b = n"
proof -
  have "nat n div 10 < 10" "nat n mod 10 < 10" using assms by auto
  then have "isdecimal (digit_char (nat n div 10))" "isdecimal (digit_char (nat n mod 10))"
    "digit_value (digit_char (nat n div 10)) = int (nat n div 10)"
    "digit_value (digit_char (nat n mod 10)) = int (nat n mod 10)"
    using digit_char_decimal by blast+
  moreover have "10 * int (nat n div 10) + int (nat n mod 10) = n"
    using assms by (simp add: zdiv_int zmod_int)
  ultimately show ?thesis by (simp add: two_digits_def)
qed

lemma strftime_HM_valid:
  assumes "valid_time now"
  shows "valid_hhmm (strftime_HM now) \<and> clock_time (strftime_HM now) = now"
proof -
  from assms have h: "0 \<le> hour now" "hour now \<le> 99" "hour now \<le> 23"
    and m: "0 \<le> minute now" "minute now \<le> 99" "minute now \<le> 59"
    by (simp_all add: valid_time_def)
  from two_digits_value [OF h(1,2)] obtain a b where
    ab: "two_digits (hour now) = [a, b]" "isdecimal a" "isdecimal b"
        "10 * digit_value a + digit_value b = hour now" by blast
  from two_digits_value [OF m(1,2)] obtain d e where
    de: "two_digits (minute now) = [d, e]" "isdecimal d" "isdecimal e"
        "10 * digit_value d + digit_value e = minute now" by blast
  from ab de h m show ?thesis
    by (simp add: strftime_HM_def valid_hhmm_def)
qed

text \<open>
  Claim C5. A day whose fields hold \<open>inText\<close> and \<open>outText\<close> is in error state
  exactly when \<open>inText\<close> has five characters and is not a valid \<open>HH:MM\<close> or is
  \<open>24:00\<close>, or else \<open>outText\<close> has five characters, is not \<open>24:00\<close> and is not a
  valid \<open>HH:MM\<close>. For five characters, not being a valid \<open>HH:MM\<close> is what
  \<open>strptime\<close> rejects (\<open>strptime_valid\<close>, \<open>strptime_five_invalid\<close>). A day in
  error state has duration zero, leaves the running total of the loop as it was, and
  shows the error box in place of a duration.
\<close>

theorem day_error_state:
  assumes "st (in_key day) = Some inText" and "st (out_key day) = Some outText"
  shows "\<exists>r. day_pass st now day = Inr r
     \<and> (error_in_row r \<longleftrightarrow>
          (length inText = 5 \<and> (\<not> valid_hhmm inText \<or> inText = ''24:00''))
          \<or> (\<not> (length inText = 5 \<and> (\<not> valid_hhmm inText \<or> inText = ''24:00''))
             \<and> length outText = 5 \<and> outText \<noteq> ''24:00'' \<and> \<not> valid_hhmm outText))
     \<and> (error_in_row r \<longrightarrow>
           daily_duration r = 0 \<and> col5 r = Error_box ''Not a real time''
           \<and> week_loop (day # rest) st now running = week_loop rest st now running)"
proof -
  have p: "day_pass st now day = day_row inText outText now"
    using assms by (simp add: day_pass_fields)
  have same: "register_day st day = st"
    using assms by (simp add: register_day_present)
  obtain r where r: "day_row inText outText now = Inr r"
    by (simp add: day_row_eq Let_def)
  have e: "error_in_row r \<longleftrightarrow>
     (length inText = 5 \<and> \<not> valid_hhmm inText)
     \<or> (length outText = 5 \<and> outText \<noteq> ''24:00'' \<and> \<not> valid_hhmm outText)"
    using r by (auto simp add: day_row_eq Let_def)
  have z: "error_in_row r \<longrightarrow> daily_duration r = 0 \<and> col5 r = Error_box ''Not a real time''"
    using r by (auto simp add: day_row_eq Let_def)
  have w: "error_in_row r \<longrightarrow>
     week_loop (day # rest) st now running = week_loop rest st now running"
    using z p r same by simp
  from p r e z w sentinel_not_valid show ?thesis by auto
qed


text \<open>Monday with the in-time 25:00 is in error state.\<close>

theorem day_error_state_witness:
  "\<exists>r. day_pass [in_key ''Monday'' \<mapsto> ''25:00'', out_key ''Monday'' \<mapsto> ''17:00'']
          \<lparr>hour = 10, minute = 5\<rparr> ''Monday'' = Inr r
       \<and> error_in_row r \<and> daily_duration r = 0 \<and> col5 r = Error_box ''Not a real time''"
proof -
  let ?st = "[in_key ''Monday'' \<mapsto> ''25:00'', out_key ''Monday'' \<mapsto> ''17:00'']"
  have i: "?st (in_key ''Monday'') = Some ''25:00''"
    and out: "?st (out_key ''Monday'') = Some ''17:00''"
    by (simp_all add: in_key_def out_key_def)
  have v: "\<not> valid_hhmm ''25:00''"
    by (simp add: valid_hhmm_def isdecimal_def digit_value_def code_point_def)
  from day_error_state [OF i out, of "\<lparr>hour = 10, minute = 5\<rparr>" "[]" 0]
  obtain r where r: "day_pass ?st \<lparr>hour = 10, minute = 5\<rparr> ''Monday'' = Inr r"
    and e: "error_in_row r \<longleftrightarrow>
          (length ''25:00'' = 5 \<and> (\<not> valid_hhmm ''25:00'' \<or> ''25:00'' = ''24:00''))
          \<or> (\<not> (length ''25:00'' = 5 \<and> (\<not> valid_hhmm ''25:00'' \<or> ''25:00'' = ''24:00''))
             \<and> length ''17:00'' = 5 \<and> ''17:00'' \<noteq> ''24:00'' \<and> \<not> valid_hhmm ''17:00'')"
    and z: "error_in_row r \<longrightarrow>
           daily_duration r = 0 \<and> col5 r = Error_box ''Not a real time''
           \<and> week_loop (''Monday'' # []) ?st \<lparr>hour = 10, minute = 5\<rparr> 0 =
               week_loop [] ?st \<lparr>hour = 10, minute = 5\<rparr> 0"
    by blast
  from e v have "error_in_row r" by simp
  with z r show ?thesis by blast
qed

text \<open>
  Claim C6. With a valid in-time of five characters and an empty out-time, the duration of
  the day is \<open>calculate_time_difference\<close> of the in-time and the clock reading formatted
  \<open>HH:MM\<close>, shown with the suffix \<open>(so far)\<close>. It is never negative: it is the
  clock reading minus the in-time, plus 24 hours when the clock reading is the earlier.
\<close>

theorem so_far_duration:
  assumes "valid_hhmm inText" and "valid_time now"
  shows "\<exists>r d. day_row inText [] now = Inr r
     \<and> calculate_time_difference inText (strftime_HM now) = Inr d
     \<and> daily_duration r = d
     \<and> duration_suffix r = '' (so far)''
     \<and> col5 r = Markdown (markdown_div (format_timedelta (Some d) @ '' (so far)''))
     \<and> 0 \<le> d
     \<and> d = (if clock_seconds inText \<le> combine_base_date now
            then combine_base_date now - clock_seconds inText
            else combine_base_date now + 24 * 3600 - clock_seconds inText)"
proof -
  have len: "length inText = 5" using assms(1) by (rule valid_hhmm_length)
  have n: "valid_hhmm (strftime_HM now)" and c: "clock_time (strftime_HM now) = now"
    using strftime_HM_valid [OF assms(2)] by simp_all
  have cs: "clock_seconds (strftime_HM now) = combine_base_date now"
    by (simp add: clock_seconds_def c combine_base_date_def)
  let ?d = "if clock_seconds inText \<le> combine_base_date now
            then combine_base_date now - clock_seconds inText
            else combine_base_date now + 24 * 3600 - clock_seconds inText"
  have d: "calculate_time_difference inText (strftime_HM now) = Inr ?d"
    by (simp add: calculate_time_difference_cases time_difference_body_valid [OF assms(1) n] cs)
  have nn: "0 \<le> ?d"
    using calculate_time_difference_total [of inText "strftime_HM now"] d by simp
  have r: "day_row inText [] now =
     Inr \<lparr>error_in_row = False, end_now_button = True, daily_duration = ?d,
          duration_suffix = '' (so far)'',
          col5 = Markdown (markdown_div (format_timedelta (Some ?d) @ '' (so far)''))\<rparr>"
    using assms(1) len by (auto simp add: day_row_eq d Let_def)
  from r d nn show ?thesis by simp
qed

text \<open>In at 09:00: at 10:05 the day shows 1 h 5 min so far, at 08:00 it shows 23 h.\<close>

theorem so_far_duration_witness:
  "valid_hhmm ''09:00'' \<and> valid_time \<lparr>hour = 10, minute = 5\<rparr> \<and> valid_time \<lparr>hour = 8, minute = 0\<rparr>
   \<and> (\<exists>r. day_row ''09:00'' [] \<lparr>hour = 10, minute = 5\<rparr> = Inr r
          \<and> daily_duration r = 3900 \<and> duration_suffix r = '' (so far)'')
   \<and> (\<exists>r. day_row ''09:00'' [] \<lparr>hour = 8, minute = 0\<rparr> = Inr r
          \<and> daily_duration r = 23 * 3600 \<and> duration_suffix r = '' (so far)'')"
proof -
  have v: "valid_hhmm ''09:00''"
    by (simp add: valid_hhmm_def isdecimal_def digit_value_def code_point_def)
  have t: "valid_time \<lparr>hour = 10, minute = 5\<rparr>" "valid_time \<lparr>hour = 8, minute = 0\<rparr>"
    by (simp_all add: valid_time_def)
  have c: "clock_seconds ''09:00'' = 32400"
    by (simp add: clock_seconds_def digit_value_def code_point_def)
  from so_far_duration [OF v t(1)] so_far_duration [OF v t(2)] v t c
  show ?thesis by (auto simp add: combine_base_date_def)
qed

text \<open>
  Claim C8. The source offers the button under
  \<open>not error_in_row and in_time and not out_time\<close>: the in-time need only be non-empty
  and not flagged, and a text shorter than five characters is never flagged. With the
  in-time \<open>9\<close>, which is not a time, and an empty out-time the button is offered, against
  the comment on that line of the source ("only if there's a valid start time and no end
  time") and against the claim.
\<close>

theorem end_now_offered_on_partial_in_time:
  "day_row ''9'' [] \<lparr>hour = 10, minute = 5\<rparr> =
     Inr \<lparr>error_in_row = False, end_now_button = True, daily_duration = 0,
          duration_suffix = [], col5 = Markdown (markdown_div ''0h 0m'')\<rparr>
   \<and> strptime ''9'' = Inl ValueError \<and> \<not> valid_hhmm ''9''"
proof -
  have "strptime ''9'' = Inl ValueError"
    by (simp add: strptime_def format_regex_matches_def group_H_def group_M_def colon_def
      in_range_def isdecimal_def code_point_def)
  moreover have "\<not> valid_hhmm ''9''" by (simp add: valid_hhmm_def)
  moreover have "format_timedelta (Some 0) = ''0h 0m''"
    by code_simp
  ultimately show ?thesis by (simp add: day_row_eq Let_def)
qed

section \<open>\<open>format_timedelta\<close>\<close>

text \<open>\<open>str_nat\<close> writes the decimal numeral of its argument: \<open>int\<close> reads it back.\<close>

lemma str_nat_decimal:
  "str_nat n \<noteq> [] \<and> list_all isdecimal (str_nat n)
   \<and> foldl (\<lambda>k c. 10 * k + digit_value c) 0 (str_nat n) = int n"
proof (induction n rule: str_nat.induct)
  case (1 n)
  show ?case
  proof (cases "n < 10")
    case True
    then show ?thesis
      using digit_char_decimal [of n] by (simp add: str_nat.simps [of n])
  next
    case False
    then have ih: "str_nat (n div 10) \<noteq> []" "list_all isdecimal (str_nat (n div 10))"
      "foldl (\<lambda>k c. 10 * k + digit_value c) 0 (str_nat (n div 10)) = int (n div 10)"
      using 1 by simp_all
    have d: "isdecimal (digit_char (n mod 10))"
      "digit_value (digit_char (n mod 10)) = int (n mod 10)"
      using digit_char_decimal [of "n mod 10"] by simp_all
    have "10 * int (n div 10) + int (n mod 10) = int n"
      by (simp add: zdiv_int zmod_int)
    with False ih d show ?thesis
      by (simp add: str_nat.simps [of n])
  qed
qed

lemma str_nat_reads_back: "py_int (str_nat n) = Inr (int n)"
  using str_nat_decimal [of n] by (simp add: py_int_def)

text \<open>
  Claim C9. \<open>format_timedelta\<close> renders a duration of \<open>d\<close> seconds as the hours
  \<open>d div 3600\<close>, rounded down, and the whole minutes that remain, in the shape
  \<open>{H}h {M}m\<close>; the seconds below a minute are dropped. \<open>None\<close> and the zero duration
  both give \<open>0h 0m\<close>. The hours are not reduced modulo 24: a duration of \<open>h\<close> hours,
  \<open>m\<close> minutes and \<open>s\<close> seconds shows \<open>h\<close> whatever its size.
\<close>

theorem format_timedelta_hours_minutes:
  "format_timedelta (Some d) =
     str_int (d div 3600) @ ''h '' @ str_int ((d mod 3600) div 60) @ ''m''
   \<and> format_timedelta None = ''0h 0m''
   \<and> format_timedelta (Some 0) = ''0h 0m''
   \<and> (0 \<le> m \<and> m < 60 \<and> 0 \<le> s \<and> s < 60 \<longrightarrow>
        format_timedelta (Some (h * 3600 + m * 60 + s)) = str_int h @ ''h '' @ str_int m @ ''m'')"
proof -
  have a: "format_timedelta (Some d) =
     str_int (d div 3600) @ ''h '' @ str_int ((d mod 3600) div 60) @ ''m''" for d
    by (simp add: format_timedelta_def Let_def)
  have b: "format_timedelta None = ''0h 0m''" by (simp add: format_timedelta_def)
  have c: "format_timedelta (Some 0) = ''0h 0m''" by code_simp
  have e: "format_timedelta (Some (h * 3600 + m * 60 + s)) = str_int h @ ''h '' @ str_int m @ ''m''"
    if ms: "0 \<le> m \<and> m < 60 \<and> 0 \<le> s \<and> s < 60"
  proof -
    have r: "0 \<le> m * 60 + s" "m * 60 + s < 3600" using ms by auto
    have eq: "h * 3600 + m * 60 + s = (m * 60 + s) + h * 3600" by simp
    have dv: "((m * 60 + s) + h * 3600) div 3600 = h"
      using r by (simp add: div_pos_pos_trivial)
    have md: "((m * 60 + s) + h * 3600) mod 3600 = m * 60 + s"
      using r by (simp add: mod_pos_pos_trivial)
    have mn: "(m * 60 + s) div 60 = m"
      using ms by (simp add: div_pos_pos_trivial)
    show ?thesis unfolding eq a dv md mn ..
  qed
  from a b c e show ?thesis by blast
qed

text \<open>One hundred hours, fifteen minutes and 59 seconds show as 100h 15m.\<close>

theorem format_timedelta_hours_minutes_witness:
  "format_timedelta (Some (100 * 3600 + 15 * 60 + 59)) = ''100h 15m''
   \<and> format_timedelta (Some 29700) = ''8h 15m''"
proof -
  have a: "str_int 100 = ''100''" "str_int 15 = ''15''" "str_int 8 = ''8''"
    by code_simp+
  have b: "(29700::int) = 8 * 3600 + 15 * 60 + 0" by simp
  from format_timedelta_hours_minutes [of _ 15 59 100] format_timedelta_hours_minutes [of _ 15 0 8]
  show ?thesis unfolding b using a by simp
qed

section \<open>\<open>format_time_input\<close>\<close>

lemma isdigit_literals: "isdigit CHR ''0''" "\<not> isdigit CHR '':''"
  by (simp_all add: isdigit_def isdecimal_def code_point_def)

lemma digits_prefix:
  "list_all isdigit (take n (filter isdigit s))"
  by (induction s arbitrary: n) (auto simp add: take_Cons split: nat.splits)

lemma filter_all: "list_all P xs \<Longrightarrow> filter P xs = xs"
  by (induction xs) auto

lemma format_time_input_digits:
  "format_time_input s = format_time_input (take 4 (filter isdigit s))"
proof -
  let ?ds = "take 4 (filter isdigit s)"
  have "filter isdigit ?ds = ?ds" using digits_prefix by (rule filter_all)
  then have same: "take 4 (filter isdigit ?ds) = ?ds" by simp
  show ?thesis
  proof (cases "?ds = []")
    case True
    then show ?thesis by (simp add: format_time_input_def)
  next
    case False
    then have "s \<noteq> []" by auto
    with False same show ?thesis by (simp add: format_time_input_def)
  qed
qed

lemma short_list_cases:
  assumes "length ds \<le> 4"
  obtains "ds = []" | a where "ds = [a]" | a b where "ds = [a, b]"
    | a b c where "ds = [a, b, c]" | a b c d where "ds = [a, b, c, d]"
proof (cases ds)
  case Nil then show ?thesis using that by simp
next
  case c1: (Cons a r1)
  show ?thesis
  proof (cases r1)
    case Nil with c1 show ?thesis using that by simp
  next
    case c2: (Cons b r2)
    show ?thesis
    proof (cases r2)
      case Nil with c1 c2 show ?thesis using that by simp
    next
      case c3: (Cons c r3)
      show ?thesis
      proof (cases r3)
        case Nil with c1 c2 c3 show ?thesis using that by simp
      next
        case c4: (Cons d r4)
        with c1 c2 c3 assms have "r4 = []" by simp
        with c1 c2 c3 c4 show ?thesis using that by simp
      qed
    qed
  qed
qed

lemma digits_output_fixed:
  assumes "list_all isdigit ds" "length ds \<le> 4" "format_time_input ds = Inr t"
  shows "format_time_input t = Inr t"
  using assms(2)
proof (cases ds rule: short_list_cases)
  case 1
  with assms(3) show ?thesis by (simp add: format_time_input_def)
next
  case (2 a)
  with assms(1,3) show ?thesis by (auto simp add: format_time_input_def)
next
  case (3 a b)
  with assms(1,3) show ?thesis by (auto simp add: format_time_input_def)
next
  case (4 a b c)
  with assms(1,3) show ?thesis
    by (auto simp add: format_time_input_def isdigit_literals Let_def
        split: sum.splits if_splits)
next
  case (5 a b c d)
  with assms(1,3) show ?thesis
    by (auto simp add: format_time_input_def isdigit_literals)
qed

lemma format_time_input_fixed_point:
  assumes "format_time_input s = Inr t"
  shows "format_time_input t = Inr t"
proof -
  let ?ds = "take 4 (filter isdigit s)"
  have d: "format_time_input ?ds = Inr t"
    using assms format_time_input_digits [of s] by simp
  show ?thesis
    using digits_prefix _ d by (rule digits_output_fixed) simp
qed

text \<open>
  On a string whose \<open>isdigit\<close> characters are decimal digits, the function is the
  reference algorithm of the specification.
\<close>

lemma filter_isdigit_decimal:
  assumes "list_all (\<lambda>c. isdecimal c \<or> \<not> isdigit c) raw"
  shows "filter isdigit raw = filter isdecimal raw"
  using assms by (induction raw) (auto simp add: isdigit_def)

lemma decimal_prefix: "list_all isdecimal (take n (filter isdecimal s))"
  by (induction s arbitrary: n) (auto simp add: take_Cons split: nat.splits)

lemma format_time_input_reference:
  assumes "list_all (\<lambda>c. isdecimal c \<or> \<not> isdigit c) raw"
  shows "format_time_input raw = Inr (normalize_reference raw)"
proof -
  let ?ds = "take 4 (filter isdecimal raw)"
  have f: "take 4 (filter isdigit raw) = ?ds"
    using filter_isdigit_decimal [OF assms] by simp
  have dec: "list_all isdecimal ?ds" by (rule decimal_prefix)
  have len: "length ?ds \<le> 4" by simp
  from len show ?thesis
  proof (cases ?ds rule: short_list_cases)
    case 1
    then show ?thesis using f
      by (simp add: format_time_input_def normalize_reference_def)
  next
    case (2 a)
    then show ?thesis using f
      by (auto simp add: format_time_input_def normalize_reference_def)
  next
    case (3 a b)
    then show ?thesis using f
      by (auto simp add: format_time_input_def normalize_reference_def)
  next
    case (4 a b c)
    with dec have "py_int [a, b] = Inr (10 * digit_value a + digit_value b)"
      by (simp add: py_int_two)
    with 4 show ?thesis using f
      by (auto simp add: format_time_input_def normalize_reference_def)
  next
    case (5 a b c d)
    then show ?thesis using f
      by (auto simp add: format_time_input_def normalize_reference_def)
  qed
qed

text \<open>
  Claim C3. The source keeps the characters for which \<open>str.isdigit\<close> holds and, when
  three remain, calls \<open>int\<close> on the first two outside any \<open>try\<close>. The superscript
  digits U+00B2, U+00B3 and U+00B9 pass \<open>str.isdigit\<close> and are rejected by \<open>int\<close>:
  on three superscript twos the function raises \<open>ValueError\<close> where the claim has it
  return a text. On every string whose \<open>isdigit\<close> characters are decimal digits the
  function does compute the reference algorithm (\<open>format_time_input_reference\<close>).
\<close>

theorem normalize_raises_on_superscript_digits:
  "format_time_input [CHR 0xB2, CHR 0xB2, CHR 0xB2] = Inl ValueError
   \<and> list_all isdigit [CHR 0xB2, CHR 0xB2, CHR 0xB2]
   \<and> py_int [CHR 0xB2, CHR 0xB2] = Inl ValueError"
proof -
  let ?raw = "[CHR 0xB2, CHR 0xB2, CHR 0xB2]"
  have digit: "isdigit (CHR 0xB2)" and not_decimal: "\<not> isdecimal (CHR 0xB2)"
    by (simp_all add: isdigit_def isdecimal_def code_point_def)
  then have kept: "take 4 (filter isdigit ?raw) = ?raw" by simp
  have no_int: "py_int [CHR 0xB2, CHR 0xB2] = Inl ValueError"
    using not_decimal by (simp add: py_int_def)
  have "format_time_input ?raw = Inl ValueError"
    unfolding format_time_input_def kept Let_def using no_int by simp
  with digit no_int show ?thesis by simp
qed

text \<open>
  On a string whose \<open>isdigit\<close> characters are decimal digits both calls return, and
  the second returns the text of the first.
\<close>

lemma format_time_input_twice:
  assumes "list_all (\<lambda>c. isdecimal c \<or> \<not> isdigit c) s"
  shows "\<exists>t. format_time_input s = Inr t \<and> format_time_input t = Inr t"
  using format_time_input_reference [OF assms]
    format_time_input_fixed_point [of s "normalize_reference s"] by simp

text \<open>
  Claim C10. Every text \<open>format_time_input\<close> returns is a fixed point of it
  (\<open>format_time_input_fixed_point\<close>), but the function does not return on every string:
  on three superscript twos, which pass \<open>str.isdigit\<close>, the call of \<open>int\<close> raises
  \<open>ValueError\<close>. There \<open>normalize(s)\<close> has no value, the composition
  \<open>normalize(normalize(s))\<close> raises as well, and the equation of the claim does not
  hold, where the claim has it hold for every string.
\<close>

theorem normalize_twice_raises_on_superscript_digits:
  "format_time_input [CHR 0xB2, CHR 0xB2, CHR 0xB2] = Inl ValueError
   \<and> (case format_time_input [CHR 0xB2, CHR 0xB2, CHR 0xB2] of
        Inl e \<Rightarrow> Inl e
      | Inr t \<Rightarrow> format_time_input t) = Inl ValueError
   \<and> (\<nexists>t. format_time_input [CHR 0xB2, CHR 0xB2, CHR 0xB2] = Inr t)"
proof -
  let ?raw = "[CHR 0xB2, CHR 0xB2, CHR 0xB2]"
  have "isdigit (CHR 0xB2)"
    by (simp add: isdigit_def isdecimal_def code_point_def)
  then have kept: "take 4 (filter isdigit ?raw) = ?raw" by simp
  have "\<not> isdecimal (CHR 0xB2)"
    by (simp add: isdecimal_def code_point_def)
  then have no_int: "py_int [CHR 0xB2, CHR 0xB2] = Inl ValueError"
    by (simp add: py_int_def)
  have raises: "format_time_input ?raw = Inl ValueError"
    unfolding format_time_input_def kept Let_def using no_int by simp
  then show ?thesis by simp
qed

section \<open>The week total and \<open>clear_day_callback\<close>\<close>

lemma day_row_total: "\<exists>r. day_row in_time out_time now = Inr r"
  by (simp add: day_row_eq Let_def)

lemma day_pass_total:
  assumes "st (in_key day) \<noteq> None" "st (out_key day) \<noteq> None"
  shows "\<exists>r. day_pass st now day = Inr r"
  using day_row_total by (simp add: day_pass_fields)

lemma week_loop_sum:
  assumes "list_all (\<lambda>day. st (in_key day) \<noteq> None \<and> st (out_key day) \<noteq> None) ds"
  shows "week_loop ds st now running = Inr (running + sum_list (map (day_duration st now) ds))"
  using assms
proof (induction ds arbitrary: running)
  case Nil
  then show ?case by simp
next
  case (Cons day ds)
  then obtain r where r: "day_pass st now day = Inr r"
    using day_pass_total [of st day now] by auto
  from Cons have "week_loop ds st now (running + daily_duration r) =
      Inr (running + daily_duration r + sum_list (map (day_duration st now) ds))"
    by simp
  moreover have "day_duration st now day = daily_duration r"
    using r by (simp add: day_duration_def)
  moreover have "register_day st day = st"
    using Cons.prems by (simp add: register_day_present)
  ultimately show ?case using r by simp
qed

lemma key_distinct:
  "in_key d \<noteq> out_key d'" "out_key d \<noteq> in_key d'"
  "in_key d = in_key d' \<longleftrightarrow> d = d'" "out_key d = out_key d' \<longleftrightarrow> d = d'"
  by (simp_all add: in_key_def out_key_def)

lemma clear_other_day:
  assumes "d \<noteq> day"
  shows "clear_day_callback day st (in_key d) = st (in_key d)"
    and "clear_day_callback day st (out_key d) = st (out_key d)"
  using assms by (simp_all add: clear_day_callback_def key_distinct)

lemma clear_this_day:
  "clear_day_callback day st (in_key day) = Some []"
  "clear_day_callback day st (out_key day) = Some []"
  by (simp_all add: clear_day_callback_def key_distinct)

lemma day_row_empty:
  "day_row [] [] now =
     Inr \<lparr>error_in_row = False, end_now_button = False, daily_duration = 0,
          duration_suffix = [], col5 = Markdown (markdown_div (format_timedelta (Some 0)))\<rparr>"
  by (simp add: day_row_eq Let_def)

lemma day_duration_cleared:
  "day_duration (clear_day_callback day st) now d =
     (if d = day then 0 else day_duration st now d)"
proof (cases "d = day")
  case True
  then show ?thesis
    by (simp add: day_duration_def day_pass_fields clear_this_day day_row_empty)
next
  case False
  then have "day_pass (clear_day_callback day st) now d = day_pass st now d"
    by (simp add: day_pass_fields clear_other_day)
  with False show ?thesis by (simp add: day_duration_def)
qed

lemma well_formed_clear: "well_formed st \<Longrightarrow> well_formed (clear_day_callback day st)"
  by (simp add: well_formed_def list_all_iff clear_day_callback_def)

lemma sum_list_clear_one:
  fixes f :: "string \<Rightarrow> int"
  assumes "distinct ds" "day \<in> set ds"
  shows "sum_list (map (\<lambda>d. if d = day then 0 else f d) ds) = sum_list (map f ds) - f day"
  using assms
proof (induction ds)
  case Nil
  then show ?case by simp
next
  case (Cons x xs)
  show ?case
  proof (cases "x = day")
    case True
    with Cons.prems have "day \<notin> set xs" by simp
    then have "sum_list (map (\<lambda>d. if d = day then 0 else f d) xs) = sum_list (map f xs)"
      by (induction xs) auto
    with True show ?thesis by simp
  next
    case False
    with Cons show ?thesis by simp
  qed
qed

lemma distinct_days: "distinct days" "length days = 7"
  by (simp_all add: days_def)

text \<open>
  Claim C7. For a session state holding the fields of the seven days and a clock reading
  \<open>now\<close>, the total the loop computes is the sum of the seven daily durations, each
  the \<open>daily_duration\<close> of that day's pass (zero for a day in error state).
  \<open>clear_day_callback\<close> sets the two fields of its day to the empty string and leaves
  every other day's fields as they were, and the total computed after it, at the same clock
  reading, is the former total minus the former duration of the cleared day.
\<close>

theorem week_total_and_clear_day:
  assumes "well_formed st" and "day \<in> set days"
  shows "total_duration st now = Inr (sum_list (map (day_duration st now) days))
    \<and> length days = 7
    \<and> list_all (\<lambda>d. \<exists>r. day_pass st now d = Inr r \<and> day_duration st now d = daily_duration r) days
    \<and> clear_day_callback day st (in_key day) = Some []
    \<and> clear_day_callback day st (out_key day) = Some []
    \<and> (\<forall>d. d \<noteq> day \<longrightarrow>
          clear_day_callback day st (in_key d) = st (in_key d)
          \<and> clear_day_callback day st (out_key d) = st (out_key d))
    \<and> total_duration (clear_day_callback day st) now =
        Inr (sum_list (map (day_duration st now) days) - day_duration st now day)"
proof -
  have t: "total_duration st now = Inr (sum_list (map (day_duration st now) days))"
    using week_loop_sum [of st days now 0] assms(1)
    by (simp add: total_duration_def well_formed_def)
  have p: "list_all (\<lambda>d. \<exists>r. day_pass st now d = Inr r \<and> day_duration st now d = daily_duration r) days"
    unfolding list_all_iff
  proof
    fix d assume "d \<in> set days"
    with assms(1) have "st (in_key d) \<noteq> None" "st (out_key d) \<noteq> None"
      by (simp_all add: well_formed_def list_all_iff)
    then obtain r where "day_pass st now d = Inr r" using day_pass_total by blast
    then show "\<exists>r. day_pass st now d = Inr r \<and> day_duration st now d = daily_duration r"
      by (simp add: day_duration_def)
  qed
  have "well_formed (clear_day_callback day st)" using assms(1) by (rule well_formed_clear)
  then have "total_duration (clear_day_callback day st) now =
      Inr (sum_list (map (day_duration (clear_day_callback day st) now) days))"
    using week_loop_sum [of "clear_day_callback day st" days now 0]
    by (simp add: total_duration_def well_formed_def)
  also have "map (day_duration (clear_day_callback day st) now) days =
      map (\<lambda>d. if d = day then 0 else day_duration st now d) days"
    by (simp add: day_duration_cleared)
  also have "sum_list (map (\<lambda>d. if d = day then 0 else day_duration st now d) days) =
      sum_list (map (day_duration st now) days) - day_duration st now day"
    using distinct_days(1) assms(2) by (rule sum_list_clear_one)
  finally have c: "total_duration (clear_day_callback day st) now =
        Inr (sum_list (map (day_duration st now) days) - day_duration st now day)" .
  from t p c distinct_days(2) clear_this_day clear_other_day show ?thesis by simp
qed


text \<open>Sixteen hours in the example week; eight after Monday is cleared.\<close>

theorem week_total_and_clear_day_witness:
  "well_formed example_week \<and> ''Monday'' \<in> set days
   \<and> total_duration example_week \<lparr>hour = 10, minute = 5\<rparr> = Inr (16 * 3600)
   \<and> total_duration (clear_day_callback ''Monday'' example_week) \<lparr>hour = 10, minute = 5\<rparr>
       = Inr (8 * 3600)"
proof -
  have wf: "well_formed example_week" by code_simp
  have mem: "''Monday'' \<in> set days" by (simp add: days_def)
  have s: "sum_list (map (day_duration example_week \<lparr>hour = 10, minute = 5\<rparr>) days) = 57600"
    by code_simp
  have m: "day_duration example_week \<lparr>hour = 10, minute = 5\<rparr> ''Monday'' = 28800"
    by code_simp
  from week_total_and_clear_day [OF wf mem, of "\<lparr>hour = 10, minute = 5\<rparr>"] wf mem s m
  show ?thesis by simp
qed


end
